theory Spec2Isabelle
  imports Main
begin

section \<open>The SMTP submission worker (workers/smtp.js)\<close>

text \<open>
  A shallow embedding of the worker: the request/response bridge to the parent port
  (\<open>call\<close>, the \<open>message\<close> handler, the timeout timer), the reconciliation of the
  server's disabled commands in \<open>onConnect\<close>, the header callback of
  \<open>processMessage\<close>, \<open>checkAccountData\<close> and the end-of-stream handler of \<open>onData\<close>.
  JavaScript values that are only tested for truthiness are modelled by their truth
  value; an optional field is an \<open>option\<close>, and an optional string is truthy when it
  is present and not empty.

  The worker runs on one thread, so every handler is one step on an explicit state. The
  collaborators (the settings store, the account store, the queue, the classes of the
  pipeline) are inputs of the model: a call that can fail returns a sum, \<open>Inl\<close> for the
  error it throws. Posting to the parent port and logging are taken to succeed, and only
  streams that reach their end are modelled.
\<close>

subsection \<open>Errors and truthiness\<close>

record js_error =
  err_message :: string
  err_code :: "string option"
  err_statusCode :: "int option"
  err_responseCode :: "int option"

definition new_Error :: "string \<Rightarrow> js_error" where
  "new_Error m = \<lparr>err_message = m, err_code = None, err_statusCode = None, err_responseCode = None\<rparr>"

fun truthy_str :: "string option \<Rightarrow> bool" where
  "truthy_str None = False"
| "truthy_str (Some s) = (s \<noteq> [])"

fun truthy_num :: "int option \<Rightarrow> bool" where
  "truthy_num None = False"
| "truthy_num (Some n) = (n \<noteq> 0)"

subsection \<open>The bridge to the parent port\<close>

text \<open>
  \<open>MAX_SIZE\<close>, \<open>DEFAULT_EENGINE_TIMEOUT\<close> and \<open>EENGINE_TIMEOUT\<close>. The configured
  duration (what \<open>getDuration\<close> returns for the environment or the configuration) is a
  parameter; a falsy duration is \<open>0\<close>.
\<close>

definition MAX_SIZE :: nat where
  "MAX_SIZE = 20 * 1024 * 1024"

definition DEFAULT_EENGINE_TIMEOUT :: int where
  "DEFAULT_EENGINE_TIMEOUT = 10 * 1000"

definition EENGINE_TIMEOUT :: "int \<Rightarrow> int" where
  "EENGINE_TIMEOUT configured = (if configured \<noteq> 0 then configured else DEFAULT_EENGINE_TIMEOUT)"

text \<open>The message handed to \<open>call\<close>: its optional \<open>timeout\<close> and the rest of it.\<close>

record call_message =
  timeout :: "int option"
  content :: string

text \<open>
  A message received from the parent port, with the fields the handler reads. The
  handler first tests the message itself for truthiness, so the handler's argument is an
  \<open>option\<close>: \<open>None\<close> is a falsy message.
\<close>

record port_message =
  cmd :: "string option"
  mid :: "string option"
  response :: "string option"
  error :: "string option"
  code :: "string option"
  statusCode :: "int option"
  message :: "string option"

text \<open>
  What the worker posts to the parent port: a call, the response to a call of the
  parent, or the error response that the handler would post if \<open>onCommand\<close> failed.
\<close>

datatype posted =
  PostCall string call_message
| PostResp string "string option"
| PostRespError string js_error

text \<open>How the promise returned by one invocation of \<open>call\<close> was settled.\<close>

datatype outcome = Resolved "string option" | Rejected js_error

text \<open>
  The state of the bridge. Every invocation of \<open>call\<close> creates one promise and one
  timer; both are identified by the value of the counter \<open>mids\<close> that the invocation
  produced. \<open>callQueue\<close> maps a correlation id to the invocation whose
  \<open>{resolve, reject, timer}\<close> it stores, \<open>timers\<close> holds the armed timers with their
  delay, \<open>settled\<close> the promises that are no longer pending, \<open>outbox\<close> what was posted
  to the parent, in order, and \<open>unhandled\<close> the commands logged by \<open>onCommand\<close>.
\<close>

record bridge =
  callQueue :: "string \<rightharpoonup> nat"
  mids :: nat
  timers :: "nat \<rightharpoonup> int"
  settled :: "nat \<rightharpoonup> outcome"
  outbox :: "posted list"
  unhandled :: "string option list"

definition init_bridge :: bridge where
  "init_bridge = \<lparr>callQueue = Map.empty, mids = 0, timers = Map.empty, settled = Map.empty,
     outbox = [], unhandled = []\<rparr>"

text \<open>A promise settles once: \<open>resolve\<close> and \<open>reject\<close> on a settled promise do nothing.\<close>

definition settle :: "nat \<Rightarrow> outcome \<Rightarrow> bridge \<Rightarrow> bridge" where
  "settle n oc s = (if settled s n = None then s\<lparr>settled := (settled s)(n \<mapsto> oc)\<rparr> else s)"

text \<open>The decimal text of a number, as a template literal renders it.\<close>

definition digit_char :: "nat \<Rightarrow> char" where
  "digit_char d = ''0123456789'' ! d"

fun dec :: "nat \<Rightarrow> string" where
  "dec n = (if n < 10 then [digit_char n] else dec (n div 10) @ [digit_char (n mod 10)])"

declare dec.simps [simp del]

definition mk_mid :: "nat \<Rightarrow> nat \<Rightarrow> string" where
  "mk_mid now n = dec now @ '':'' @ dec n"

text \<open>The number that a decimal text stands for; used to show that \<open>dec\<close> is injective.\<close>

definition undec :: "string \<Rightarrow> nat" where
  "undec cs = foldl (\<lambda>a c. 10 * a + (of_char c - 48)) 0 cs"

text \<open>
  \<open>call\<close>: \<open>now\<close> is what \<open>Date.now()\<close> returns, \<open>eto\<close> the value of
  \<open>EENGINE_TIMEOUT\<close>. The delay of the timer is \<open>message.timeout || EENGINE_TIMEOUT\<close>.
\<close>

definition call_delay :: "int \<Rightarrow> call_message \<Rightarrow> int" where
  "call_delay eto m = (if truthy_num (timeout m) then the (timeout m) else eto)"

definition call :: "int \<Rightarrow> nat \<Rightarrow> call_message \<Rightarrow> bridge \<Rightarrow> bridge" where
  "call eto now m s =
     (let n = mids s + 1;
          k = mk_mid now n
      in s\<lparr>mids := n,
            timers := (timers s)(n \<mapsto> call_delay eto m),
            callQueue := (callQueue s)(k \<mapsto> n),
            outbox := outbox s @ [PostCall k m]\<rparr>)"

text \<open>The error of the timer's callback, and the callback itself, for the timer of invocation \<open>n\<close>.\<close>

definition timeout_error :: js_error where
  "timeout_error = (new_Error ''Timeout waiting for command response [T4]'')
     \<lparr>err_statusCode := Some 504, err_code := Some ''Timeout''\<rparr>"

definition timer_fire :: "nat \<Rightarrow> bridge \<Rightarrow> bridge" where
  "timer_fire n s =
     (case timers s n of
        None \<Rightarrow> s
      | Some d \<Rightarrow> settle n (Rejected timeout_error) (s\<lparr>timers := (timers s)(n := None)\<rparr>))"

text \<open>The error built from a response that carries an error.\<close>

definition response_error :: "port_message \<Rightarrow> js_error" where
  "response_error msg =
     (let err = new_Error (the (error msg));
          err1 = (if truthy_str (code msg) then err\<lparr>err_code := code msg\<rparr> else err)
      in if truthy_num (statusCode msg) then err1\<lparr>err_statusCode := statusCode msg\<rparr> else err1)"

definition response_outcome :: "port_message \<Rightarrow> outcome" where
  "response_outcome msg =
     (if truthy_str (error msg) then Rejected (response_error msg) else Resolved (response msg))"

text \<open>
  The handler of the parent port's \<open>message\<close> event. \<open>onCommand\<close> logs the command
  and returns nothing, so the response posted for a \<open>call\<close> carries no payload.
\<close>

definition on_message :: "port_message option \<Rightarrow> bridge \<Rightarrow> bridge" where
  "on_message m s =
     (case m of
        None \<Rightarrow> s
      | Some msg \<Rightarrow>
          (if cmd msg = Some ''resp'' \<and> truthy_str (mid msg) \<and> callQueue s (the (mid msg)) \<noteq> None
           then
             (let k = the (mid msg);
                  n = the (callQueue s k);
                  s1 = s\<lparr>timers := (timers s)(n := None), callQueue := (callQueue s)(k := None)\<rparr>
              in settle n (response_outcome msg) s1)
           else if cmd msg = Some ''call'' \<and> truthy_str (mid msg)
           then s\<lparr>unhandled := unhandled s @ [message msg],
                  outbox := outbox s @ [PostResp (the (mid msg)) None]\<rparr>
           else s))"

text \<open>The events of the bridge, and a run of events from a state.\<close>

datatype event =
  Call int nat call_message
| Message "port_message option"
| TimerFire nat

fun step :: "event \<Rightarrow> bridge \<Rightarrow> bridge" where
  "step (Call eto now m) s = call eto now m s"
| "step (Message m) s = on_message m s"
| "step (TimerFire n) s = timer_fire n s"

fun run :: "event list \<Rightarrow> bridge \<Rightarrow> bridge" where
  "run [] s = s"
| "run (e # es) s = run es (step e s)"

text \<open>
  What holds of every state the bridge can reach: a key of \<open>callQueue\<close> is never the
  empty string, every invocation number in use was produced by the counter, and two
  keys never store the closures of the same invocation.
\<close>

definition bridge_inv :: "bridge \<Rightarrow> bool" where
  "bridge_inv s =
     ((\<forall>k n. callQueue s k = Some n \<longrightarrow> k \<noteq> [] \<and> n \<le> mids s) \<and>
      (\<forall>k k' n. callQueue s k = Some n \<and> callQueue s k' = Some n \<longrightarrow> k = k') \<and>
      (\<forall>n oc. settled s n = Some oc \<longrightarrow> n \<le> mids s) \<and>
      (\<forall>n d. timers s n = Some d \<longrightarrow> n \<le> mids s))"

subsection \<open>Connection setup: \<open>onConnect\<close>\<close>

record server_options =
  disabledCommands :: "string list"
  useProxy :: bool

text \<open>\<open>serverOptions\<close> of \<open>init\<close>; \<open>proxy\<close> is the setting \<open>smtpServerProxy\<close> read at start.\<close>

definition init_options :: "bool \<Rightarrow> server_options" where
  "init_options proxy = \<lparr>disabledCommands = [''STARTTLS''], useProxy = proxy\<rparr>"

text \<open>
  A session: \<open>sid\<close> is the identity of the session object (the key of the
  \<open>ACCOUNT_CACHE\<close> weak map), \<open>mailFrom\<close> and \<open>rcptTo\<close> are the addresses of
  \<open>session.envelope\<close>.
\<close>

record session =
  sid :: nat
  eeAuthEnabled :: bool
  mailFrom :: string
  rcptTo :: "string list"

text \<open>
  \<open>new Set(array)\<close> adds the elements one by one, an element already present is not
  added again, and \<open>Array.from\<close> lists the set in insertion order.
\<close>

fun set_add_all :: "'a list \<Rightarrow> 'a list \<Rightarrow> 'a list" where
  "set_add_all acc [] = acc"
| "set_add_all acc (x # xs) = set_add_all (if x \<in> set acc then acc else acc @ [x]) xs"

definition new_Set :: "'a list \<Rightarrow> 'a list" where
  "new_Set xs = set_add_all [] xs"

text \<open>The first \<open>then\<close> of \<open>onConnect\<close>, on the list of disabled commands.\<close>

definition reconcile :: "bool \<Rightarrow> string list \<Rightarrow> string list" where
  "reconcile authEnabled dc =
     (if authEnabled \<and> ''AUTH'' \<in> set dc then removeAll ''AUTH'' (new_Set dc)
      else if \<not> authEnabled \<and> ''AUTH'' \<notin> set dc then dc @ [''AUTH'']
      else dc)"

text \<open>
  \<open>onConnect\<close>: the two settings are read one after the other, and either read can
  fail (\<open>Inl\<close>); the error, if any, goes to the callback. A setting is only used
  through its truth value.
\<close>

definition onConnect ::
  "js_error + bool \<Rightarrow> js_error + bool \<Rightarrow> server_options \<Rightarrow> session \<Rightarrow>
     server_options \<times> session \<times> js_error option" where
  "onConnect authSetting proxySetting opts sess =
     (case authSetting of
        Inl err \<Rightarrow> (opts, sess, Some err)
      | Inr authEnabled \<Rightarrow>
          (let opts1 = opts\<lparr>disabledCommands := reconcile authEnabled (disabledCommands opts)\<rparr>;
               sess1 = sess\<lparr>eeAuthEnabled := authEnabled\<rparr>
           in case proxySetting of
                Inl err \<Rightarrow> (opts1, sess1, Some err)
              | Inr smtpServerProxy \<Rightarrow> (opts1\<lparr>useProxy := smtpServerProxy\<rparr>, sess1, None)))"

text \<open>The shared options after a sequence of connections, each with what its two reads returned.\<close>

fun connects ::
  "((js_error + bool) \<times> (js_error + bool) \<times> session) list \<Rightarrow> server_options \<Rightarrow> server_options" where
  "connects [] opts = opts"
| "connects ((a, p, sess) # cs) opts = connects cs (fst (onConnect a p opts sess))"

subsection \<open>The message pipeline: \<open>processMessage\<close>\<close>

text \<open>
  A header line as the structural parser reports it: its normalised (lower-case) key,
  its value, and the text of the line.
\<close>

record header_line =
  hkey :: string
  hvalue :: string
  hline :: string

text \<open>
  Modelled from the spec: the header container handed to the callback of the header
  rewriter (its class is not part of \<open>workers/smtp.js\<close>). \<open>getFirst\<close> gives the value
  of the first header with the key, if there is one; \<open>remove\<close> removes every header
  with the key and lets all other headers pass through unchanged, in order.
\<close>

definition getFirst :: "header_line list \<Rightarrow> string \<Rightarrow> string option" where
  "getFirst headers key =
     (case filter (\<lambda>h. hkey h = key) headers of [] \<Rightarrow> None | h # _ \<Rightarrow> Some (hvalue h))"

definition remove :: "header_line list \<Rightarrow> string \<Rightarrow> header_line list" where
  "remove headers key = filter (\<lambda>h. hkey h \<noteq> key) headers"

record message_meta =
  requestedAccount :: "string option"

text \<open>The callback that \<open>processMessage\<close> gives to the header rewriter.\<close>

definition headers_callback ::
  "header_line list \<Rightarrow> message_meta \<Rightarrow> header_line list \<times> message_meta" where
  "headers_callback headers meta =
     (let requestedAccount = getFirst headers ''x-ee-account'';
          headers1 = remove headers ''x-ee-account''
      in (headers1,
          if truthy_str requestedAccount then meta\<lparr>requestedAccount := requestedAccount\<rparr>
          else meta))"

text \<open>
  The stream that the protocol engine hands to \<open>onData\<close>, as the parts the structural
  parser emits for it (the header block and the body chunks), with the flag
  \<open>sizeExceeded\<close> that the protocol engine sets on this stream object when the
  submitted bytes exceed the \<open>size\<close> option (\<open>MAX_SIZE\<close>).
\<close>

record raw_stream =
  rs_headers :: "header_line list"
  rs_body :: "string list"
  rs_sizeExceeded :: bool

text \<open>
  The stream that \<open>processMessage\<close> returns: the parts that reach the reassembler, and
  the property \<open>sizeExceeded\<close> as the handlers of \<open>onData\<close> read it from this object.
\<close>

record out_stream =
  os_headers :: "header_line list"
  os_body :: "string list"
  sizeExceeded :: bool

text \<open>
  Modelled from the spec: the reassembler (\<open>Joiner\<close>) serialises the parts in their
  order, the header block first (every line, then the empty line that ends the block),
  then the body chunks as they are.
\<close>

definition CRLF :: string where
  "CRLF = [CHR 0x0D, CHR 0x0A]"

definition header_block :: "header_line list \<Rightarrow> string" where
  "header_block hs = concat (map (\<lambda>h. hline h @ CRLF) hs) @ CRLF"

definition stream_chunks :: "out_stream \<Rightarrow> string list" where
  "stream_chunks st = header_block (os_headers st) # os_body st"

text \<open>
  Modelled from the spec: the three stages of the pipeline, whose classes are not part
  of \<open>workers/smtp.js\<close>. The structural parser (\<open>Splitter\<close>) emits the header block
  and the body parts of the raw stream. The header rewriter (\<open>HeadersRewriter\<close>) runs
  its callback on the header block and passes everything else through unchanged. The
  reassembler (\<open>Joiner\<close>) receives the parts in their order; it is a new stream object,
  on which nothing sets the property \<open>sizeExceeded\<close>, so the property is undefined
  (falsy) there whatever the flag of the raw stream is.
\<close>

type_synonym parts = "header_line list \<times> string list"

definition Splitter :: "raw_stream \<Rightarrow> parts" where
  "Splitter stream = (rs_headers stream, rs_body stream)"

definition HeadersRewriter ::
  "(header_line list \<Rightarrow> 'm \<Rightarrow> header_line list \<times> 'm) \<Rightarrow> parts \<Rightarrow> 'm \<Rightarrow> parts \<times> 'm" where
  "HeadersRewriter headersCallback p meta =
     (let (headers1, meta1) = headersCallback (fst p) meta in ((headers1, snd p), meta1))"

definition Joiner :: "parts \<Rightarrow> out_stream" where
  "Joiner p = \<lparr>os_headers = fst p, os_body = snd p, sizeExceeded = False\<rparr>"

text \<open>
  \<open>processMessage\<close>: \<open>stream.pipe(splitter).pipe(headersRewriter).pipe(joiner)\<close>. The
  value of the chain of \<open>pipe\<close> calls is its last destination, the joiner; the meta data
  are returned with it, as the callback has left them.
\<close>

definition processMessage :: "raw_stream \<Rightarrow> message_meta \<Rightarrow> out_stream \<times> message_meta" where
  "processMessage stream meta =
     (let (p, meta1) = HeadersRewriter headers_callback (Splitter stream) meta
      in (Joiner p, meta1))"

subsection \<open>Account resolution: \<open>checkAccountData\<close>\<close>

record account_handle =
  account :: string
  secret :: string

datatype account_data = AccountData string

text \<open>What \<open>loadAccountData\<close> does: it throws, or returns the data, or returns nothing.\<close>

datatype load_result = LoadThrows js_error | LoadReturns "account_data option"

record payload =
  envelope_from :: string
  envelope_to :: "string list"
  raw :: string

record queue_result =
  messageId :: string
  sendAt :: string
  queueId :: string

text \<open>
  The collaborators of the worker: the secret that \<open>getSecret\<close> returns, the account
  store behind \<open>loadAccountData\<close> (by account id), and the queue behind
  \<open>queueMessage\<close>.
\<close>

record environment =
  getSecret :: string
  loadAccountData :: "string \<Rightarrow> load_result"
  queueMessage :: "account_handle \<Rightarrow> payload \<Rightarrow> js_error + queue_result"

datatype log_entry =
  LogInfo string string
| LogError string string js_error

type_synonym account_cache = "nat \<rightharpoonup> account_handle"

definition err_no_sender :: js_error where
  "err_no_sender = (new_Error ''Sender account ID not provided, can not send mail'')
     \<lparr>err_responseCode := Some 451\<rparr>"

definition err_load_failed :: js_error where
  "err_load_failed = (new_Error ''Failed to load account'')\<lparr>err_responseCode := Some 451\<rparr>"

text \<open>
  The first statement of \<open>checkAccountData\<close>: the value of \<open>accountObject\<close> after it,
  the cache and what was logged.
\<close>

definition lookup_account ::
  "environment \<Rightarrow> account_cache \<Rightarrow> session \<Rightarrow> message_meta \<Rightarrow>
     account_handle option \<times> account_cache \<times> log_entry list" where
  "lookup_account env cache sess messageMeta =
     (if \<not> eeAuthEnabled sess \<and> truthy_str (requestedAccount messageMeta)
      then
        (let r = the (requestedAccount messageMeta);
             accountObject = \<lparr>account = r, secret = getSecret env\<rparr>
         in case loadAccountData env r of
              LoadReturns (Some accountData) \<Rightarrow>
                (Some accountObject, cache(sid sess \<mapsto> accountObject),
                 [LogInfo ''Resolved requested account'' r])
            | LoadReturns None \<Rightarrow> (Some accountObject, cache, [])
            | LoadThrows err \<Rightarrow>
                (Some accountObject, cache,
                 [LogError ''Failed resolving requested account'' r err]))
      else (cache (sid sess), cache, []))"

definition checkAccountData ::
  "environment \<Rightarrow> account_cache \<Rightarrow> session \<Rightarrow> message_meta \<Rightarrow>
     (js_error + account_handle) \<times> account_cache \<times> log_entry list" where
  "checkAccountData env cache sess messageMeta =
     (let (accountObject, cache1, logs) = lookup_account env cache sess messageMeta
      in if \<not> eeAuthEnabled sess \<and> \<not> truthy_str (requestedAccount messageMeta) \<and> accountObject = None
         then (Inl err_no_sender, cache1, logs)
         else (case accountObject of
                 None \<Rightarrow> (Inl err_load_failed, cache1, logs)
               | Some a \<Rightarrow> (Inr a, cache1, logs)))"

subsection \<open>Data submission: \<open>onData\<close>\<close>

definition err_size_exceeded :: js_error where
  "err_size_exceeded = (new_Error ''Message exceeds fixed maximum message size'')
     \<lparr>err_responseCode := Some 552\<rparr>"

text \<open>The operations that \<open>onData\<close> invokes, in order.\<close>

datatype effect =
  CheckAccountData nat message_meta
| QueueMessage account_handle payload
| Metrics string

text \<open>The confirmation passed to the callback: the queue id and the time of sending.\<close>

datatype confirmation = Queued string string

record data_result =
  reply :: "js_error + confirmation"
  effects :: "effect list"
  cache_after :: account_cache

text \<open>The \<open>readable\<close> handler: a chunk is kept unless the stream's flag is set.\<close>

definition collect_chunks :: "out_stream \<Rightarrow> string list" where
  "collect_chunks st = (if sizeExceeded st then [] else stream_chunks st)"

text \<open>The \<open>end\<close> handler, for the stream and the meta data that \<open>processMessage\<close> gave.\<close>

definition onData_end ::
  "environment \<Rightarrow> account_cache \<Rightarrow> out_stream \<Rightarrow> session \<Rightarrow> message_meta \<Rightarrow> data_result" where
  "onData_end env cache st sess messageMeta =
     (if sizeExceeded st
      then \<lparr>reply = Inl err_size_exceeded, effects = [], cache_after = cache\<rparr>
      else
        (case checkAccountData env cache sess messageMeta of
           (Inl err, cache1, logs) \<Rightarrow>
             \<lparr>reply = Inl err, effects = [CheckAccountData (sid sess) messageMeta],
              cache_after = cache1\<rparr>
         | (Inr accountObject, cache1, logs) \<Rightarrow>
             (let p = \<lparr>envelope_from = mailFrom sess, envelope_to = rcptTo sess,
                       raw = concat (collect_chunks st)\<rparr>
              in case queueMessage env accountObject p of
                   Inr res \<Rightarrow>
                     \<lparr>reply = Inr (Queued (queueId res) (sendAt res)),
                      effects = [CheckAccountData (sid sess) messageMeta,
                                 QueueMessage accountObject p, Metrics ''smtpSubmitQueued''],
                      cache_after = cache1\<rparr>
                 | Inl err \<Rightarrow>
                     \<lparr>reply = Inl err,
                      effects = [CheckAccountData (sid sess) messageMeta,
                                 QueueMessage accountObject p, Metrics ''smtpSubmitFail''],
                      cache_after = cache1\<rparr>)))"

definition onData :: "environment \<Rightarrow> account_cache \<Rightarrow> raw_stream \<Rightarrow> session \<Rightarrow> data_result" where
  "onData env cache rawStream sess =
     (let (st, messageMeta) = processMessage rawStream \<lparr>requestedAccount = None\<rparr>
      in onData_end env cache st sess messageMeta)"

subsection \<open>Auxiliary predicates and example inputs\<close>

text \<open>
  Invocation \<open>n\<close> of \<open>call\<close> is still waiting: its promise is pending, its timer is
  armed with delay \<open>d\<close>, and no key of \<open>callQueue\<close> but \<open>k\<close> stores its closures.
\<close>

definition pending_alone :: "nat \<Rightarrow> string \<Rightarrow> int \<Rightarrow> bridge \<Rightarrow> bool" where
  "pending_alone n k d s =
     (n \<le> mids s \<and> settled s n = None \<and> timers s n = Some d \<and>
      (\<forall>k'. callQueue s k' = Some n \<longrightarrow> k' = k))"

text \<open>Two calls issued within the same millisecond, and a response for each.\<close>

definition one_call :: bridge where
  "one_call =
     call (EENGINE_TIMEOUT 0) 1620000000000 \<lparr>timeout = None, content = ''listMessages''\<rparr> init_bridge"

definition two_calls :: bridge where
  "two_calls =
     call (EENGINE_TIMEOUT 0) 1620000000000 \<lparr>timeout = Some 500, content = ''getText''\<rparr> one_call"

definition resp_A :: port_message where
  "resp_A = \<lparr>cmd = Some ''resp'', mid = Some ''1620000000000:1'', response = Some ''payload A'',
     error = None, code = None, statusCode = None, message = None\<rparr>"

definition resp_B :: port_message where
  "resp_B = \<lparr>cmd = Some ''resp'', mid = Some ''1620000000000:2'', response = None,
     error = Some ''Account not found'', code = Some ''AccountNotFound'', statusCode = Some 404,
     message = None\<rparr>"

text \<open>
  Three environments: one whose account store throws for every account, one whose
  store returns nothing, and one that knows the account \<open>acct1\<close> and queues every
  message.
\<close>

definition ghost_env :: environment where
  "ghost_env = \<lparr>getSecret = ''s3cret'',
     loadAccountData = (\<lambda>a. LoadThrows (new_Error ''Account record was not found'')),
     queueMessage = (\<lambda>a p. Inl (new_Error ''Account record was not found''))\<rparr>"

definition nodata_env :: environment where
  "nodata_env = \<lparr>getSecret = ''s3cret'',
     loadAccountData = (\<lambda>a. LoadReturns None),
     queueMessage = (\<lambda>a p. Inl (new_Error ''Account record was not found''))\<rparr>"

definition acct1_env :: environment where
  "acct1_env = \<lparr>getSecret = ''s3cret'',
     loadAccountData = (\<lambda>a. if a = ''acct1'' then LoadReturns (Some (AccountData a))
        else LoadThrows (new_Error ''Account record was not found'')),
     queueMessage = (\<lambda>a p. Inr \<lparr>messageId = ''<m1@example.com>'',
        sendAt = ''2021-05-01T10:00:00.000Z'', queueId = ''17a2b3c4d5''\<rparr>)\<rparr>"

text \<open>A session without authentication, and one with authentication and a cached handle.\<close>

definition open_session :: session where
  "open_session = \<lparr>sid = 7, eeAuthEnabled = False, mailFrom = ''a@example.com'',
     rcptTo = [''b@example.com'']\<rparr>"

definition auth_session :: session where
  "auth_session = \<lparr>sid = 3, eeAuthEnabled = True, mailFrom = ''alice@example.com'',
     rcptTo = [''b@example.com'']\<rparr>"

definition auth_cache :: account_cache where
  "auth_cache = [3 \<mapsto> \<lparr>account = ''alice'', secret = ''s3cret''\<rparr>]"

text \<open>
  Messages: one that names the account \<open>ghost\<close>, one that names \<open>acct1\<close>, one whose
  first directive is empty, and one of 25 MiB that names \<open>acct1\<close>.
\<close>

definition ghost_stream :: raw_stream where
  "ghost_stream = \<lparr>rs_headers =
       [\<lparr>hkey = ''subject'', hvalue = ''hello'', hline = ''Subject: hello''\<rparr>,
        \<lparr>hkey = ''x-ee-account'', hvalue = ''ghost'', hline = ''X-EE-Account: ghost''\<rparr>],
     rs_body = [''hi''], rs_sizeExceeded = False\<rparr>"

definition acct1_stream :: raw_stream where
  "acct1_stream = \<lparr>rs_headers =
       [\<lparr>hkey = ''x-ee-account'', hvalue = ''acct1'', hline = ''X-EE-Account: acct1''\<rparr>,
        \<lparr>hkey = ''subject'', hvalue = ''hello'', hline = ''Subject: hello''\<rparr>],
     rs_body = [''hi''], rs_sizeExceeded = False\<rparr>"

definition empty_directive_stream :: raw_stream where
  "empty_directive_stream = \<lparr>rs_headers =
       [\<lparr>hkey = ''x-ee-account'', hvalue = [], hline = ''X-EE-Account:''\<rparr>,
        \<lparr>hkey = ''subject'', hvalue = ''hello'', hline = ''Subject: hello''\<rparr>,
        \<lparr>hkey = ''x-ee-account'', hvalue = ''acct1'', hline = ''X-EE-Account: acct1''\<rparr>],
     rs_body = [''hi''], rs_sizeExceeded = False\<rparr>"

definition big_stream :: raw_stream where
  "big_stream = \<lparr>rs_headers =
       [\<lparr>hkey = ''x-ee-account'', hvalue = ''acct1'', hline = ''X-EE-Account: acct1''\<rparr>],
     rs_body = [replicate (25 * 1024 * 1024) (CHR ''a'')], rs_sizeExceeded = True\<rparr>"


section \<open>Properties of the bridge\<close>

subsection \<open>Correlation ids\<close>

lemma mk_mid_nonempty: "mk_mid now n \<noteq> []"
  by (simp add: mk_mid_def)

lemma digit_char_cases:
  assumes "d < 10"
  shows "digit_char d \<in> set ''0123456789'' \<and> of_char (digit_char d) - 48 = d"
proof -
  from assms have "d = 0 \<or> d = 1 \<or> d = 2 \<or> d = 3 \<or> d = 4 \<or> d = 5 \<or> d = 6 \<or> d = 7 \<or> d = 8 \<or> d = 9"
    by arith
  then show ?thesis
    by (elim disjE) (simp_all add: digit_char_def)
qed

lemma dec_digits: "set (dec n) \<subseteq> set ''0123456789''"
proof (induction n rule: dec.induct)
  case (1 n)
  show ?case
  proof (cases "n < 10")
    case True
    with digit_char_cases [of n] show ?thesis
      by (simp add: dec.simps [of n])
  next
    case False
    have "n mod 10 < 10" by simp
    with digit_char_cases [of "n mod 10"] 1 False show ?thesis
      by (simp add: dec.simps [of n])
  qed
qed

lemma colon_not_in_dec: "CHR '':'' \<notin> set (dec n)"
  using dec_digits [of n] by auto

lemma undec_snoc: "undec (cs @ [c]) = 10 * undec cs + (of_char c - 48)"
  by (simp add: undec_def)

lemma undec_dec: "undec (dec n) = n"
proof (induction n rule: dec.induct)
  case (1 n)
  show ?case
  proof (cases "n < 10")
    case True
    with digit_char_cases [of n] show ?thesis
      by (simp add: dec.simps [of n] undec_def)
  next
    case False
    have "n mod 10 < 10" by simp
    with digit_char_cases [of "n mod 10"] 1 False show ?thesis
      by (simp add: dec.simps [of n] undec_snoc)
  qed
qed

lemma dec_inj: "dec a = dec b \<Longrightarrow> a = b"
  by (metis undec_dec)

text \<open>
  A correlation id determines the time and the counter value it was built from, so two
  invocations of \<open>call\<close>, which never see the same counter value, never get the same
  id, even within the same millisecond.
\<close>

lemma mk_mid_inj:
  assumes "mk_mid now n = mk_mid now' n'"
  shows "now = now' \<and> n = n'"
proof -
  from assms have "dec now @ CHR '':'' # dec n = dec now' @ CHR '':'' # dec n'"
    by (simp add: mk_mid_def)
  then have "dec now = dec now' \<and> dec n = dec n'"
    by (simp add: append_Cons_eq_iff colon_not_in_dec)
  then show ?thesis
    by (simp add: dec_inj)
qed

lemma distinct_invocations_distinct_ids: "n \<noteq> n' \<Longrightarrow> mk_mid now n \<noteq> mk_mid now' n'"
  using mk_mid_inj by blast

lemma successive_calls_get_distinct_ids:
  "mk_mid now (mids s + 1) \<noteq> mk_mid now' (mids (call eto now m s) + 1)"
  by (rule distinct_invocations_distinct_ids) (simp add: call_def Let_def)

subsection \<open>Fields after each operation\<close>

lemma settle_fields [simp]:
  "callQueue (settle n oc s) = callQueue s"
  "mids (settle n oc s) = mids s"
  "timers (settle n oc s) = timers s"
  "outbox (settle n oc s) = outbox s"
  "unhandled (settle n oc s) = unhandled s"
  by (simp_all add: settle_def)

lemma settled_settle:
  "settled (settle n oc s) = (if settled s n = None then (settled s)(n \<mapsto> oc) else settled s)"
  by (simp add: settle_def)

lemma call_fields:
  "callQueue (call eto now m s) = (callQueue s)(mk_mid now (mids s + 1) \<mapsto> mids s + 1)"
  "mids (call eto now m s) = mids s + 1"
  "timers (call eto now m s) = (timers s)(mids s + 1 \<mapsto> call_delay eto m)"
  "settled (call eto now m s) = settled s"
  by (simp_all add: call_def Let_def)

lemma timer_fire_fields:
  "callQueue (timer_fire n s) = callQueue s"
  "mids (timer_fire n s) = mids s"
  "timers (timer_fire n s) = (timers s)(n := None)"
  "settled (timer_fire n s) =
     (if timers s n \<noteq> None \<and> settled s n = None
      then (settled s)(n \<mapsto> Rejected timeout_error) else settled s)"
  by (auto simp add: timer_fire_def settled_settle split: option.splits)

lemma on_message_resp:
  assumes "cmd msg = Some ''resp''" and "mid msg = Some k" and "k \<noteq> []"
    and "callQueue s k = Some n"
  shows "on_message (Some msg) s =
    settle n (response_outcome msg)
      (s\<lparr>timers := (timers s)(n := None), callQueue := (callQueue s)(k := None)\<rparr>)"
  using assms by (simp add: on_message_def)

lemma on_message_resp_fields:
  assumes "cmd msg = Some ''resp''" and "mid msg = Some k" and "k \<noteq> []"
    and "callQueue s k = Some n"
  shows "callQueue (on_message (Some msg) s) = (callQueue s)(k := None)"
    and "mids (on_message (Some msg) s) = mids s"
    and "timers (on_message (Some msg) s) = (timers s)(n := None)"
    and "settled (on_message (Some msg) s) =
      (if settled s n = None then (settled s)(n \<mapsto> response_outcome msg) else settled s)"
  unfolding on_message_resp [OF assms] by (simp_all add: settled_settle)

lemma on_message_other_fields:
  assumes "\<not> (cmd msg = Some ''resp'' \<and> truthy_str (mid msg) \<and> callQueue s (the (mid msg)) \<noteq> None)"
  shows "callQueue (on_message (Some msg) s) = callQueue s"
    and "mids (on_message (Some msg) s) = mids s"
    and "timers (on_message (Some msg) s) = timers s"
    and "settled (on_message (Some msg) s) = settled s"
  using assms by (auto simp add: on_message_def)

subsection \<open>The invariant of reachable states\<close>

lemma bridge_inv_init: "bridge_inv init_bridge"
  by (simp add: bridge_inv_def init_bridge_def)

lemma bridge_inv_call:
  assumes "bridge_inv s"
  shows "bridge_inv (call eto now m s)"
proof -
  let ?n = "mids s + 1"
  let ?k = "mk_mid now ?n"
  let ?s' = "call eto now m s"
  note q = call_fields(1) [of eto now m s] and c = call_fields(2) [of eto now m s]
    and t = call_fields(3) [of eto now m s] and d = call_fields(4) [of eto now m s]
  from assms have old: "\<And>k n. callQueue s k = Some n \<Longrightarrow> k \<noteq> [] \<and> n \<le> mids s"
    and inj: "\<And>k k' n. callQueue s k = Some n \<Longrightarrow> callQueue s k' = Some n \<Longrightarrow> k = k'"
    and se: "\<And>n oc. settled s n = Some oc \<Longrightarrow> n \<le> mids s"
    and ti: "\<And>n d. timers s n = Some d \<Longrightarrow> n \<le> mids s"
    unfolding bridge_inv_def by blast+
  have fresh: "callQueue s j \<noteq> Some ?n" for j
  proof
    assume "callQueue s j = Some ?n"
    from old [OF this] show False by simp
  qed
  have 1: "\<forall>k n. callQueue ?s' k = Some n \<longrightarrow> k \<noteq> [] \<and> n \<le> mids ?s'"
  proof (intro allI impI)
    fix k n
    assume a: "callQueue ?s' k = Some n"
    show "k \<noteq> [] \<and> n \<le> mids ?s'"
    proof (cases "k = ?k")
      case True
      with a q have "n = ?n" by simp
      with True c mk_mid_nonempty show ?thesis by simp
    next
      case False
      with a q have "callQueue s k = Some n" by simp
      from old [OF this] c show ?thesis by simp
    qed
  qed
  have 2: "\<forall>k k' n. callQueue ?s' k = Some n \<and> callQueue ?s' k' = Some n \<longrightarrow> k = k'"
  proof (intro allI impI, elim conjE)
    fix k k' n
    assume a: "callQueue ?s' k = Some n" and b: "callQueue ?s' k' = Some n"
    show "k = k'"
    proof (cases "k = ?k")
      case True
      with a q have n: "n = ?n" by simp
      show ?thesis
      proof (cases "k' = ?k")
        case True
        with \<open>k = ?k\<close> show ?thesis by simp
      next
        case False
        with b q n have "callQueue s k' = Some ?n" by simp
        with fresh show ?thesis by blast
      qed
    next
      case False
      with a q have ka: "callQueue s k = Some n" by simp
      show ?thesis
      proof (cases "k' = ?k")
        case True
        with b q have "n = ?n" by simp
        with ka fresh show ?thesis by blast
      next
        case False
        with b q have "callQueue s k' = Some n" by simp
        from inj [OF ka this] show ?thesis .
      qed
    qed
  qed
  have 3: "\<forall>n oc. settled ?s' n = Some oc \<longrightarrow> n \<le> mids ?s'"
  proof (intro allI impI)
    fix n oc
    assume "settled ?s' n = Some oc"
    with d have "settled s n = Some oc" by simp
    from se [OF this] c show "n \<le> mids ?s'" by simp
  qed
  have 4: "\<forall>n d. timers ?s' n = Some d \<longrightarrow> n \<le> mids ?s'"
  proof (intro allI impI)
    fix n d
    assume a: "timers ?s' n = Some d"
    show "n \<le> mids ?s'"
    proof (cases "n = ?n")
      case True
      with c show ?thesis by simp
    next
      case False
      with a t have "timers s n = Some d" by simp
      from ti [OF this] c show ?thesis by simp
    qed
  qed
  from 1 2 3 4 show ?thesis unfolding bridge_inv_def by blast
qed

lemma bridge_inv_timer_fire:
  assumes "bridge_inv s"
  shows "bridge_inv (timer_fire n s)"
proof (cases "timers s n")
  case None
  with assms show ?thesis by (simp add: timer_fire_def)
next
  case (Some d)
  from assms have "\<And>n d. timers s n = Some d \<Longrightarrow> n \<le> mids s"
    unfolding bridge_inv_def by blast
  from this [OF Some] have "n \<le> mids s" .
  with assms show ?thesis
    unfolding bridge_inv_def timer_fire_fields
    by (simp split: if_splits)
qed

lemma bridge_inv_on_message:
  assumes "bridge_inv s"
  shows "bridge_inv (on_message m s)"
proof (cases m)
  case None
  with assms show ?thesis by (simp add: on_message_def)
next
  case (Some msg)
  show ?thesis
  proof (cases "cmd msg = Some ''resp'' \<and> truthy_str (mid msg) \<and> callQueue s (the (mid msg)) \<noteq> None")
    case True
    then obtain k n where k: "mid msg = Some k" "k \<noteq> []" and n: "callQueue s k = Some n"
      by (cases "mid msg") auto
    from assms n have "n \<le> mids s"
      unfolding bridge_inv_def by blast
    with assms show ?thesis
      unfolding Some bridge_inv_def on_message_resp_fields [OF conjunct1 [OF True] k n]
      by (simp split: if_splits)
  next
    case False
    from assms show ?thesis
      unfolding Some bridge_inv_def on_message_other_fields [OF False] by simp
  qed
qed

lemma bridge_inv_step: "bridge_inv s \<Longrightarrow> bridge_inv (step e s)"
  by (cases e) (simp_all add: bridge_inv_call bridge_inv_timer_fire bridge_inv_on_message)

lemma bridge_inv_run: "bridge_inv s \<Longrightarrow> bridge_inv (run es s)"
  by (induction es arbitrary: s) (simp_all add: bridge_inv_step)

lemma bridge_inv_reachable: "bridge_inv (run es init_bridge)"
  by (rule bridge_inv_run [OF bridge_inv_init])

subsection \<open>The example calls\<close>

lemma mid_1: "mk_mid 1620000000000 (Suc 0) = ''1620000000000:1''"
  by (simp add: mk_mid_def dec.simps digit_char_def)

lemma mid_2: "mk_mid 1620000000000 (Suc (Suc 0)) = ''1620000000000:2''"
  by (simp add: mk_mid_def dec.simps digit_char_def)

lemma one_call_fields:
  "callQueue one_call ''1620000000000:1'' = Some 1"
  "callQueue one_call ''1620000000000:2'' = None"
  "timers one_call 1 = Some 10000"
  "settled one_call 1 = None"
  by (simp_all add: one_call_def call_def Let_def init_bridge_def mid_1 call_delay_def
      EENGINE_TIMEOUT_def DEFAULT_EENGINE_TIMEOUT_def)

lemma two_calls_fields:
  "callQueue two_calls ''1620000000000:1'' = Some 1"
  "callQueue two_calls ''1620000000000:2'' = Some 2"
  "settled two_calls 1 = None"
  "settled two_calls 2 = None"
  by (simp_all add: two_calls_def one_call_def call_def Let_def init_bridge_def mid_1 mid_2)

lemma bridge_inv_two_calls: "bridge_inv two_calls"
  unfolding two_calls_def one_call_def
  by (intro bridge_inv_call bridge_inv_init)

lemma example_outcomes:
  "response_outcome resp_A = Resolved (Some ''payload A'')"
  "response_outcome resp_B = Rejected \<lparr>err_message = ''Account not found'',
     err_code = Some ''AccountNotFound'', err_statusCode = Some 404, err_responseCode = None\<rparr>"
  by (simp_all add: response_outcome_def response_error_def resp_A_def resp_B_def new_Error_def)

subsection \<open>Responses that match no pending call\<close>

text \<open>
  Claim C10. A message from the parent whose \<open>cmd\<close> is \<open>resp\<close> and whose \<open>mid\<close> is
  absent, or is not a key of \<open>callQueue\<close>, changes nothing: the handler returns the
  state it was given, so the table of pending calls is the same, no promise is settled
  and nothing is posted to the parent.
\<close>

theorem unknown_response_is_ignored:
  assumes "cmd msg = Some ''resp''"
    and "mid msg = None \<or> callQueue s (the (mid msg)) = None"
  shows "on_message (Some msg) s = s \<and>
         callQueue (on_message (Some msg) s) = callQueue s \<and>
         settled (on_message (Some msg) s) = settled s \<and>
         outbox (on_message (Some msg) s) = outbox s"
  using assms by (auto simp add: on_message_def)

theorem unknown_response_is_ignored_witness:
  "cmd resp_B = Some ''resp'' \<and>
   (mid resp_B = None \<or> callQueue one_call (the (mid resp_B)) = None) \<and>
   on_message (Some resp_B) one_call = one_call \<and>
   callQueue (on_message (Some resp_B) one_call) = callQueue one_call \<and>
   settled (on_message (Some resp_B) one_call) = settled one_call \<and>
   outbox (on_message (Some resp_B) one_call) = outbox one_call"
proof -
  have c: "cmd resp_B = Some ''resp''"
    by (simp add: resp_B_def)
  have k: "mid resp_B = None \<or> callQueue one_call (the (mid resp_B)) = None"
    by (simp add: resp_B_def one_call_fields)
  from unknown_response_is_ignored [OF c k] c k show ?thesis by blast
qed

subsection \<open>Concurrent calls\<close>

lemma deliver_two:
  assumes inv: "bridge_inv s"
    and q1: "callQueue s k1 = Some n1" and q2: "callQueue s k2 = Some n2"
    and ne: "k1 \<noteq> k2"
    and p1: "settled s n1 = None" and p2: "settled s n2 = None"
    and r1: "cmd r1 = Some ''resp''" "mid r1 = Some k1"
    and r2: "cmd r2 = Some ''resp''" "mid r2 = Some k2"
  shows "on_message (Some r2) (on_message (Some r1) s) =
     s\<lparr>timers := (timers s)(n1 := None, n2 := None),
       callQueue := (callQueue s)(k1 := None, k2 := None),
       settled := (settled s)(n1 \<mapsto> response_outcome r1, n2 \<mapsto> response_outcome r2)\<rparr>"
proof -
  from inv q1 q2 have k: "k1 \<noteq> []" "k2 \<noteq> []"
    unfolding bridge_inv_def by blast+
  from inv q1 q2 ne have n: "n1 \<noteq> n2"
    unfolding bridge_inv_def by blast
  let ?s1 = "on_message (Some r1) s"
  have s1: "?s1 = s\<lparr>timers := (timers s)(n1 := None), callQueue := (callQueue s)(k1 := None),
      settled := (settled s)(n1 \<mapsto> response_outcome r1)\<rparr>"
    using r1 k q1 p1 by (simp add: on_message_resp settle_def)
  have "callQueue ?s1 k2 = Some n2" and "settled ?s1 n2 = None"
    unfolding s1 using q2 p2 ne n by simp_all
  then have "on_message (Some r2) ?s1 =
      ?s1\<lparr>timers := (timers ?s1)(n2 := None), callQueue := (callQueue ?s1)(k2 := None),
        settled := (settled ?s1)(n2 \<mapsto> response_outcome r2)\<rparr>"
    using r2 k by (simp add: on_message_resp settle_def)
  then show ?thesis
    unfolding s1 by simp
qed

text \<open>
  Claim C6. Two calls are waiting under distinct correlation ids \<open>k1\<close> and \<open>k2\<close>, in a
  state that satisfies the invariant of the reachable states. Delivering their responses in
  either order gives the same state: each promise is settled with the outcome of the
  response that bears its own id (resolved with that response's payload, or rejected with
  that response's error), and both entries have left \<open>callQueue\<close>.
\<close>

theorem concurrent_calls_are_independent:
  assumes "bridge_inv s"
    and "callQueue s k1 = Some n1" and "callQueue s k2 = Some n2"
    and "k1 \<noteq> k2"
    and "settled s n1 = None" and "settled s n2 = None"
    and "cmd r1 = Some ''resp''" and "mid r1 = Some k1"
    and "cmd r2 = Some ''resp''" and "mid r2 = Some k2"
  shows "on_message (Some r2) (on_message (Some r1) s) =
           on_message (Some r1) (on_message (Some r2) s) \<and>
         settled (on_message (Some r2) (on_message (Some r1) s)) n1 = Some (response_outcome r1) \<and>
         settled (on_message (Some r2) (on_message (Some r1) s)) n2 = Some (response_outcome r2) \<and>
         callQueue (on_message (Some r2) (on_message (Some r1) s)) k1 = None \<and>
         callQueue (on_message (Some r2) (on_message (Some r1) s)) k2 = None"
proof -
  from assms have n: "n1 \<noteq> n2"
    unfolding bridge_inv_def by blast
  have a: "on_message (Some r2) (on_message (Some r1) s) =
     s\<lparr>timers := (timers s)(n1 := None, n2 := None),
       callQueue := (callQueue s)(k1 := None, k2 := None),
       settled := (settled s)(n1 \<mapsto> response_outcome r1, n2 \<mapsto> response_outcome r2)\<rparr>"
    using assms by (rule deliver_two)
  have b: "on_message (Some r1) (on_message (Some r2) s) =
     s\<lparr>timers := (timers s)(n2 := None, n1 := None),
       callQueue := (callQueue s)(k2 := None, k1 := None),
       settled := (settled s)(n2 \<mapsto> response_outcome r2, n1 \<mapsto> response_outcome r1)\<rparr>"
    using assms by (intro deliver_two) simp_all
  have t: "(timers s)(n1 := None, n2 := None) = (timers s)(n2 := None, n1 := None)"
    using n by (rule fun_upd_twist)
  have q: "(callQueue s)(k1 := None, k2 := None) = (callQueue s)(k2 := None, k1 := None)"
    using \<open>k1 \<noteq> k2\<close> by (rule fun_upd_twist)
  have d: "(settled s)(n1 \<mapsto> response_outcome r1, n2 \<mapsto> response_outcome r2) =
      (settled s)(n2 \<mapsto> response_outcome r2, n1 \<mapsto> response_outcome r1)"
    using n by (rule fun_upd_twist)
  show ?thesis
    unfolding a b t q d using n \<open>k1 \<noteq> k2\<close> by simp
qed

theorem concurrent_calls_are_independent_witness:
  "bridge_inv two_calls \<and>
   callQueue two_calls ''1620000000000:1'' = Some 1 \<and>
   callQueue two_calls ''1620000000000:2'' = Some 2 \<and>
   ''1620000000000:1'' \<noteq> ''1620000000000:2'' \<and>
   settled two_calls 1 = None \<and> settled two_calls 2 = None \<and>
   cmd resp_A = Some ''resp'' \<and> mid resp_A = Some ''1620000000000:1'' \<and>
   cmd resp_B = Some ''resp'' \<and> mid resp_B = Some ''1620000000000:2'' \<and>
   on_message (Some resp_B) (on_message (Some resp_A) two_calls) =
     on_message (Some resp_A) (on_message (Some resp_B) two_calls) \<and>
   settled (on_message (Some resp_B) (on_message (Some resp_A) two_calls)) 1 =
     Some (Resolved (Some ''payload A'')) \<and>
   settled (on_message (Some resp_B) (on_message (Some resp_A) two_calls)) 2 =
     Some (Rejected \<lparr>err_message = ''Account not found'', err_code = Some ''AccountNotFound'',
       err_statusCode = Some 404, err_responseCode = None\<rparr>) \<and>
   callQueue (on_message (Some resp_B) (on_message (Some resp_A) two_calls)) ''1620000000000:1'' = None \<and>
   callQueue (on_message (Some resp_B) (on_message (Some resp_A) two_calls)) ''1620000000000:2'' = None"
proof -
  have ne: "''1620000000000:1'' \<noteq> ''1620000000000:2''" by simp
  have a: "cmd resp_A = Some ''resp''" "mid resp_A = Some ''1620000000000:1''"
    by (simp_all add: resp_A_def)
  have b: "cmd resp_B = Some ''resp''" "mid resp_B = Some ''1620000000000:2''"
    by (simp_all add: resp_B_def)
  from concurrent_calls_are_independent
    [OF bridge_inv_two_calls two_calls_fields(1,2) ne two_calls_fields(3,4) a b]
    bridge_inv_two_calls two_calls_fields ne a b
  show ?thesis unfolding example_outcomes by blast
qed

subsection \<open>Calls that get no response\<close>

lemma timer_fire_rejects:
  assumes "timers s n = Some d" and "settled s n = None"
  shows "settled (timer_fire n s) n = Some (Rejected timeout_error)"
  using assms by (simp add: timer_fire_def settle_def)

lemma pending_alone_call:
  assumes "pending_alone n k d s"
  shows "pending_alone n k d (call eto now m s)"
  using assms unfolding pending_alone_def call_fields
  by (auto split: if_splits)

lemma pending_alone_timer_fire:
  assumes "pending_alone n k d s" and "n' \<noteq> n"
  shows "pending_alone n k d (timer_fire n' s)"
  using assms unfolding pending_alone_def timer_fire_fields
  by (auto split: if_splits)

lemma pending_alone_on_message:
  assumes p: "pending_alone n k d s"
    and other: "\<And>msg. m = Some msg \<Longrightarrow> mid msg \<noteq> Some k"
  shows "pending_alone n k d (on_message m s)"
proof (cases m)
  case None
  with p show ?thesis by (simp add: on_message_def)
next
  case (Some msg)
  show ?thesis
  proof (cases "cmd msg = Some ''resp'' \<and> truthy_str (mid msg) \<and> callQueue s (the (mid msg)) \<noteq> None")
    case True
    then obtain k' n' where k': "mid msg = Some k'" "k' \<noteq> []" and n': "callQueue s k' = Some n'"
      by (cases "mid msg") auto
    from other [OF Some] k' have "k' \<noteq> k" by simp
    with p n' have "n' \<noteq> n"
      unfolding pending_alone_def by blast
    with p show ?thesis
      unfolding Some pending_alone_def on_message_resp_fields [OF conjunct1 [OF True] k' n']
      by (auto split: if_splits)
  next
    case False
    with p show ?thesis
      unfolding Some pending_alone_def on_message_other_fields [OF False] by simp
  qed
qed

lemma pending_alone_run:
  assumes "pending_alone n k d s"
    and "\<forall>e \<in> set es. e \<noteq> TimerFire n \<and> (\<forall>msg. e = Message (Some msg) \<longrightarrow> mid msg \<noteq> Some k)"
  shows "pending_alone n k d (run es s)"
  using assms
proof (induction es arbitrary: s)
  case Nil
  then show ?case by simp
next
  case (Cons e es)
  have "pending_alone n k d (step e s)"
  proof (cases e)
    case (Call eto now m)
    with Cons.prems(1) show ?thesis by (simp add: pending_alone_call)
  next
    case (Message m)
    with Cons.prems show ?thesis by (simp add: pending_alone_on_message)
  next
    case (TimerFire n')
    with Cons.prems show ?thesis by (simp add: pending_alone_timer_fire)
  qed
  with Cons show ?case by simp
qed

lemma pending_alone_after_call:
  assumes "bridge_inv s"
  shows "pending_alone (mids s + 1) (mk_mid now (mids s + 1)) (call_delay eto m) (call eto now m s)"
proof -
  from assms have old: "\<And>k n. callQueue s k = Some n \<Longrightarrow> n \<le> mids s"
    and se: "\<And>n oc. settled s n = Some oc \<Longrightarrow> n \<le> mids s"
    unfolding bridge_inv_def by blast+
  have "settled s (mids s + 1) = None"
    using se [of "mids s + 1"] by (cases "settled s (mids s + 1)") auto
  moreover have "callQueue s k' \<noteq> Some (mids s + 1)" for k'
    using old [of k' "mids s + 1"] by auto
  ultimately show ?thesis
    unfolding pending_alone_def call_fields by (auto split: if_splits)
qed

text \<open>
  A call that gets no response is rejected by its timer, whatever else happens in between:
  after \<open>call\<close>, and after any events among which there is neither a message bearing the
  call's id nor the firing of its own timer, the promise is still pending and the timer is
  still armed with the delay chosen by \<open>call\<close>; when the timer then fires, the promise is
  rejected with the timeout error.
\<close>

lemma unanswered_call_times_out:
  assumes "bridge_inv s"
    and "\<forall>e \<in> set es. e \<noteq> TimerFire (mids s + 1) \<and>
           (\<forall>msg. e = Message (Some msg) \<longrightarrow> mid msg \<noteq> Some (mk_mid now (mids s + 1)))"
  shows "settled (run es (call eto now m s)) (mids s + 1) = None"
    and "timers (run es (call eto now m s)) (mids s + 1) = Some (call_delay eto m)"
    and "settled (timer_fire (mids s + 1) (run es (call eto now m s))) (mids s + 1) =
           Some (Rejected timeout_error)"
proof -
  have "pending_alone (mids s + 1) (mk_mid now (mids s + 1)) (call_delay eto m)
      (run es (call eto now m s))"
    using pending_alone_after_call [OF assms(1)] assms(2) by (rule pending_alone_run)
  then show "settled (run es (call eto now m s)) (mids s + 1) = None"
    and "timers (run es (call eto now m s)) (mids s + 1) = Some (call_delay eto m)"
    unfolding pending_alone_def by simp_all
  then show "settled (timer_fire (mids s + 1) (run es (call eto now m s))) (mids s + 1) =
           Some (Rejected timeout_error)"
    by (simp add: timer_fire_rejects)
qed

text \<open>The timer's callback never touches the table of pending calls.\<close>

lemma timer_fire_keeps_entries: "callQueue (timer_fire n s) = callQueue s"
  by (rule timer_fire_fields(1))

text \<open>
  Claim C2. A call with no timeout of its own, issued on the initial state, arms its
  timer with the default of 10000 ms. When no response arrives and the timer fires, the
  promise is rejected with the error whose code is \<open>Timeout\<close> and whose status code is
  504; the entry of the call, however, is still in \<open>callQueue\<close> afterwards: the callback
  of the timer does not delete it.
\<close>

theorem timeout_leaves_pending_entry:
  "timers one_call 1 = Some 10000 \<and>
   settled (timer_fire 1 one_call) 1 =
     Some (Rejected \<lparr>err_message = ''Timeout waiting for command response [T4]'',
       err_code = Some ''Timeout'', err_statusCode = Some 504, err_responseCode = None\<rparr>) \<and>
   callQueue (timer_fire 1 one_call) ''1620000000000:1'' = Some 1"
proof -
  have "settled (timer_fire 1 one_call) 1 = Some (Rejected timeout_error)"
    by (rule timer_fire_rejects [OF one_call_fields(3) one_call_fields(4)])
  moreover have "callQueue (timer_fire 1 one_call) ''1620000000000:1'' = Some 1"
    unfolding timer_fire_fields by (rule one_call_fields(1))
  ultimately show ?thesis
    using one_call_fields(3) by (simp add: timeout_error_def new_Error_def)
qed


section \<open>Properties of the connection setup\<close>

lemma set_add_all_set: "set (set_add_all acc xs) = set acc \<union> set xs"
  by (induction xs arbitrary: acc) auto

lemma set_add_all_distinct: "distinct acc \<Longrightarrow> distinct (set_add_all acc xs)"
  by (induction xs arbitrary: acc) auto

lemma new_Set_set: "set (new_Set xs) = set xs"
  by (simp add: new_Set_def set_add_all_set)

lemma new_Set_distinct: "distinct (new_Set xs)"
  by (simp add: new_Set_def set_add_all_distinct)

lemma reconcile_distinct: "distinct dc \<Longrightarrow> distinct (reconcile a dc)"
  by (simp add: reconcile_def new_Set_distinct distinct_removeAll)

lemma reconcile_AUTH: "''AUTH'' \<in> set (reconcile a dc) \<longleftrightarrow> \<not> a"
  by (simp add: reconcile_def new_Set_set)

lemma onConnect_distinct:
  "distinct (disabledCommands opts) \<Longrightarrow> distinct (disabledCommands (fst (onConnect a p opts sess)))"
  by (simp add: onConnect_def Let_def reconcile_distinct split: sum.splits)

lemma onConnect_AUTH:
  "''AUTH'' \<in> set (disabledCommands (fst (onConnect (Inr a) p opts sess))) \<longleftrightarrow> \<not> a"
  by (simp add: onConnect_def Let_def reconcile_AUTH split: sum.splits)

lemma onConnect_stamps_session:
  "eeAuthEnabled (fst (snd (onConnect (Inr a) p opts sess))) = a"
  by (simp add: onConnect_def Let_def split: sum.splits)

lemma connects_distinct:
  "distinct (disabledCommands opts) \<Longrightarrow> distinct (disabledCommands (connects cs opts))"
  by (induction cs opts rule: connects.induct) (simp_all add: onConnect_distinct)

lemma connects_append: "connects (cs @ ds) opts = connects ds (connects cs opts)"
  by (induction cs opts rule: connects.induct) simp_all

text \<open>
  Claim C7. After any sequence of connections, the list of disabled commands of the
  server has no duplicate entry; and when the last connection of the sequence read the
  setting \<open>smtpServerAuthEnabled\<close>, the list contains \<open>AUTH\<close> exactly when that setting
  is off. Toggling the setting twice in a row is one such sequence.
\<close>

theorem disabledCommands_reconciled:
  "distinct (disabledCommands (connects cs (init_options proxy))) \<and>
   (cs = cs' @ [(Inr authEnabled, p, sess)] \<longrightarrow>
      (''AUTH'' \<in> set (disabledCommands (connects cs (init_options proxy))) \<longleftrightarrow> \<not> authEnabled))"
proof
  show "distinct (disabledCommands (connects cs (init_options proxy)))"
    by (rule connects_distinct) (simp add: init_options_def)
  show "cs = cs' @ [(Inr authEnabled, p, sess)] \<longrightarrow>
      (''AUTH'' \<in> set (disabledCommands (connects cs (init_options proxy))) \<longleftrightarrow> \<not> authEnabled)"
    by (simp add: connects_append onConnect_AUTH)
qed

theorem disabledCommands_reconciled_witness:
  "distinct (disabledCommands (connects
     [(Inr False, Inr False, open_session), (Inr True, Inr False, auth_session),
      (Inr False, Inr False, open_session)] (init_options False))) \<and>
   [(Inr False, Inr False, open_session), (Inr True, Inr False, auth_session),
      (Inr False, Inr False, open_session)] =
     [(Inr False, Inr False, open_session), (Inr True, Inr False, auth_session)] @
       [(Inr False, Inr False, open_session)] \<and>
   ''AUTH'' \<in> set (disabledCommands (connects
     [(Inr False, Inr False, open_session), (Inr True, Inr False, auth_session),
      (Inr False, Inr False, open_session)] (init_options False))) \<and>
   disabledCommands (connects
     [(Inr False, Inr False, open_session), (Inr True, Inr False, auth_session),
      (Inr False, Inr False, open_session)] (init_options False)) = [''STARTTLS'', ''AUTH'']"
proof -
  have e: "[(Inr False, Inr False, open_session), (Inr True, Inr False, auth_session),
      (Inr False, Inr False, open_session)] =
     [(Inr False, Inr False, open_session), (Inr True, Inr False, auth_session)] @
       [(Inr False, Inr False, open_session)]"
    by simp
  have v: "disabledCommands (connects
     [(Inr False, Inr False, open_session), (Inr True, Inr False, auth_session),
      (Inr False, Inr False, open_session)] (init_options False)) = [''STARTTLS'', ''AUTH'']"
    by (simp add: onConnect_def reconcile_def new_Set_def init_options_def)
  from disabledCommands_reconciled
    [of "[(Inr False, Inr False, open_session), (Inr True, Inr False, auth_session),
      (Inr False, Inr False, open_session)]" False
      "[(Inr False, Inr False, open_session), (Inr True, Inr False, auth_session)]"
      False "Inr False" open_session] e v
  show ?thesis by simp
qed

section \<open>Properties of the pipeline and of account resolution\<close>

subsection \<open>The header callback\<close>

lemma getFirst_remove: "getFirst (remove hs k) k = None"
  by (simp add: getFirst_def remove_def filter_empty_conv split: list.splits)

lemma remove_keys: "k \<notin> hkey ` set (remove hs k)"
  by (auto simp add: remove_def)

lemma remove_idem: "remove (remove hs k) k = remove hs k"
  by (simp add: remove_def)

lemmas pipeline_defs =
  processMessage_def Splitter_def HeadersRewriter_def Joiner_def headers_callback_def

lemma processMessage_headers:
  "os_headers (fst (processMessage rawStream meta)) = remove (rs_headers rawStream) ''x-ee-account''"
  by (simp add: pipeline_defs Let_def)

lemma processMessage_body: "os_body (fst (processMessage rawStream meta)) = rs_body rawStream"
  by (simp add: pipeline_defs Let_def)

lemma processMessage_flag: "sizeExceeded (fst (processMessage rawStream meta)) = False"
  by (simp add: pipeline_defs Let_def)

lemma processMessage_meta:
  "snd (processMessage rawStream meta) =
     (if truthy_str (getFirst (rs_headers rawStream) ''x-ee-account'')
      then meta\<lparr>requestedAccount := getFirst (rs_headers rawStream) ''x-ee-account''\<rparr> else meta)"
  by (simp add: pipeline_defs Let_def)

subsection \<open>Resolution from the cache\<close>

lemma checkAccountData_cached:
  assumes "eeAuthEnabled sess \<or> \<not> truthy_str (requestedAccount m)"
  shows "checkAccountData env cache sess m =
     (case cache (sid sess) of
        None \<Rightarrow> (Inl (if eeAuthEnabled sess then err_load_failed else err_no_sender), cache, [])
      | Some a \<Rightarrow> (Inr a, cache, []))"
  using assms by (auto simp add: checkAccountData_def lookup_account_def split: option.splits)

text \<open>
  Claim C4. On a session that does not require authentication, with no requested
  account captured from the message and no handle cached for the session,
  \<open>checkAccountData\<close> fails with the error \<open>Sender account ID not provided, can not
  send mail\<close>, whose response code is 451; the cache is left as it was.
\<close>

theorem no_sender_account_specified:
  assumes "\<not> eeAuthEnabled sess"
    and "\<not> truthy_str (requestedAccount messageMeta)"
    and "cache (sid sess) = None"
  shows "checkAccountData env cache sess messageMeta = (Inl err_no_sender, cache, []) \<and>
         err_message err_no_sender = ''Sender account ID not provided, can not send mail'' \<and>
         err_responseCode err_no_sender = Some 451"
  using assms by (simp add: checkAccountData_cached err_no_sender_def new_Error_def)

theorem no_sender_account_specified_witness:
  "\<not> eeAuthEnabled open_session \<and>
   \<not> truthy_str (requestedAccount \<lparr>requestedAccount = None\<rparr>) \<and>
   (Map.empty :: account_cache) (sid open_session) = None \<and>
   checkAccountData ghost_env Map.empty open_session \<lparr>requestedAccount = None\<rparr> =
     (Inl err_no_sender, Map.empty, []) \<and>
   err_message err_no_sender = ''Sender account ID not provided, can not send mail'' \<and>
   err_responseCode err_no_sender = Some 451"
  using no_sender_account_specified [of open_session "\<lparr>requestedAccount = None\<rparr>" Map.empty ghost_env]
  by (simp add: open_session_def)

text \<open>
  Claim C8. On a session that requires authentication, the result of
  \<open>checkAccountData\<close> is the same for any two messages, whatever their \<open>x-ee-account\<close>
  headers say: it is the handle cached for the session, or the error \<open>Failed to load
  account\<close> when there is none. The header is removed from both messages all the same.
\<close>

theorem auth_enabled_ignores_directive:
  assumes "eeAuthEnabled sess"
  shows "checkAccountData env cache sess (snd (processMessage rawStream1 meta)) =
           checkAccountData env cache sess (snd (processMessage rawStream2 meta)) \<and>
         fst (checkAccountData env cache sess (snd (processMessage rawStream1 meta))) =
           (case cache (sid sess) of None \<Rightarrow> Inl err_load_failed | Some a \<Rightarrow> Inr a) \<and>
         ''x-ee-account'' \<notin> hkey ` set (os_headers (fst (processMessage rawStream1 meta))) \<and>
         ''x-ee-account'' \<notin> hkey ` set (os_headers (fst (processMessage rawStream2 meta)))"
  using assms
  by (simp add: checkAccountData_cached processMessage_headers remove_keys split: option.splits)

theorem auth_enabled_ignores_directive_witness:
  "eeAuthEnabled auth_session \<and>
   checkAccountData acct1_env auth_cache auth_session
       (snd (processMessage ghost_stream \<lparr>requestedAccount = None\<rparr>)) =
     checkAccountData acct1_env auth_cache auth_session
       (snd (processMessage acct1_stream \<lparr>requestedAccount = None\<rparr>)) \<and>
   fst (checkAccountData acct1_env auth_cache auth_session
       (snd (processMessage ghost_stream \<lparr>requestedAccount = None\<rparr>))) =
     Inr \<lparr>account = ''alice'', secret = ''s3cret''\<rparr> \<and>
   ''x-ee-account'' \<notin> hkey ` set (os_headers (fst (processMessage ghost_stream \<lparr>requestedAccount = None\<rparr>))) \<and>
   ''x-ee-account'' \<notin> hkey ` set (os_headers (fst (processMessage acct1_stream \<lparr>requestedAccount = None\<rparr>)))"
proof -
  have a: "eeAuthEnabled auth_session"
    by (simp add: auth_session_def)
  have c: "auth_cache (sid auth_session) = Some \<lparr>account = ''alice'', secret = ''s3cret''\<rparr>"
    by (simp add: auth_session_def auth_cache_def)
  note t = auth_enabled_ignores_directive [OF a, of acct1_env auth_cache ghost_stream
      "\<lparr>requestedAccount = None\<rparr>" acct1_stream, unfolded c option.case]
  from t a show ?thesis by blast
qed

subsection \<open>Resolution from the routing header\<close>

text \<open>
  Claim C9. When the first \<open>x-ee-account\<close> header of a message has an empty value,
  the callback records no requested account and the header is removed; the pipeline and
  the whole submission then give exactly what they give for the same message without
  any \<open>x-ee-account\<close> header.
\<close>

theorem empty_directive_is_no_directive:
  assumes "getFirst (rs_headers rawStream) ''x-ee-account'' = Some []"
  shows "snd (processMessage rawStream meta) = meta \<and>
         ''x-ee-account'' \<notin> hkey ` set (os_headers (fst (processMessage rawStream meta))) \<and>
         processMessage rawStream meta =
           processMessage (rawStream\<lparr>rs_headers := remove (rs_headers rawStream) ''x-ee-account''\<rparr>) meta \<and>
         onData env cache rawStream sess =
           onData env cache (rawStream\<lparr>rs_headers := remove (rs_headers rawStream) ''x-ee-account''\<rparr>) sess"
proof -
  have pm: "processMessage rawStream m =
      processMessage (rawStream\<lparr>rs_headers := remove (rs_headers rawStream) ''x-ee-account''\<rparr>) m" for m
    using assms
    by (simp add: pipeline_defs Let_def getFirst_remove remove_idem)
  have "snd (processMessage rawStream meta) = meta"
    using assms by (simp add: processMessage_meta)
  moreover have "''x-ee-account'' \<notin> hkey ` set (os_headers (fst (processMessage rawStream meta)))"
    by (simp add: processMessage_headers remove_keys)
  moreover have "onData env cache rawStream sess =
      onData env cache (rawStream\<lparr>rs_headers := remove (rs_headers rawStream) ''x-ee-account''\<rparr>) sess"
    unfolding onData_def pm [of "\<lparr>requestedAccount = None\<rparr>"] ..
  ultimately show ?thesis using pm [of meta] by simp
qed

theorem empty_directive_is_no_directive_witness:
  "getFirst (rs_headers empty_directive_stream) ''x-ee-account'' = Some [] \<and>
   snd (processMessage empty_directive_stream \<lparr>requestedAccount = None\<rparr>) = \<lparr>requestedAccount = None\<rparr> \<and>
   ''x-ee-account'' \<notin> hkey ` set (os_headers (fst (processMessage empty_directive_stream \<lparr>requestedAccount = None\<rparr>))) \<and>
   processMessage empty_directive_stream \<lparr>requestedAccount = None\<rparr> =
     processMessage (empty_directive_stream\<lparr>rs_headers := remove (rs_headers empty_directive_stream) ''x-ee-account''\<rparr>)
       \<lparr>requestedAccount = None\<rparr> \<and>
   onData acct1_env Map.empty empty_directive_stream open_session =
     onData acct1_env Map.empty
       (empty_directive_stream\<lparr>rs_headers := remove (rs_headers empty_directive_stream) ''x-ee-account''\<rparr>)
       open_session \<and>
   reply (onData acct1_env Map.empty empty_directive_stream open_session) = Inl err_no_sender"
proof -
  have g: "getFirst (rs_headers empty_directive_stream) ''x-ee-account'' = Some []"
    by (simp add: empty_directive_stream_def getFirst_def)
  have r: "reply (onData acct1_env Map.empty empty_directive_stream open_session) = Inl err_no_sender"
    by (simp add: onData_def onData_end_def pipeline_defs g
        checkAccountData_def lookup_account_def open_session_def)
  from empty_directive_is_no_directive [OF g, of "\<lparr>requestedAccount = None\<rparr>" acct1_env
      Map.empty open_session] g r
  show ?thesis by blast
qed


lemma directive_lookup:
  assumes "\<not> eeAuthEnabled sess" and "requestedAccount m = Some v" and "v \<noteq> []"
  shows "lookup_account env cache sess m =
     (case loadAccountData env v of
        LoadReturns (Some accountData) \<Rightarrow>
          (Some \<lparr>account = v, secret = getSecret env\<rparr>,
           cache(sid sess \<mapsto> \<lparr>account = v, secret = getSecret env\<rparr>),
           [LogInfo ''Resolved requested account'' v])
      | LoadReturns None \<Rightarrow> (Some \<lparr>account = v, secret = getSecret env\<rparr>, cache, [])
      | LoadThrows err \<Rightarrow>
          (Some \<lparr>account = v, secret = getSecret env\<rparr>, cache,
           [LogError ''Failed resolving requested account'' v err]))"
  using assms by (simp add: lookup_account_def Let_def)

lemma directive_captured:
  assumes "getFirst (rs_headers rawStream) ''x-ee-account'' = Some v" and "v \<noteq> []"
  shows "snd (processMessage rawStream \<lparr>requestedAccount = None\<rparr>) = \<lparr>requestedAccount = Some v\<rparr>"
  using assms by (simp add: processMessage_meta)

text \<open>
  Claim C1 does not hold as it is stated. The session below does not require
  authentication and the message carries the header \<open>x-ee-account: ghost\<close>, but the
  account store returns no data for \<open>ghost\<close>: no handle is cached for the session.
\<close>

theorem directive_not_cached_counterexample:
  "\<not> eeAuthEnabled open_session \<and>
   getFirst (rs_headers ghost_stream) ''x-ee-account'' = Some ''ghost'' \<and>
   fst (snd (checkAccountData nodata_env Map.empty open_session
      (snd (processMessage ghost_stream \<lparr>requestedAccount = None\<rparr>)))) (sid open_session) = None"
  by (simp add: checkAccountData_def lookup_account_def Let_def nodata_env_def open_session_def
      ghost_stream_def
      pipeline_defs getFirst_def remove_def)

text \<open>
  Claim C1, amended. On a session that does not require authentication, for a message
  whose first \<open>x-ee-account\<close> header has a non-empty value \<open>v\<close>: when the account
  store returns data for \<open>v\<close>, \<open>checkAccountData\<close> returns a handle whose account is
  \<open>v\<close> and caches this handle for the session, and \<open>queueMessage\<close> is invoked on this
  handle with the reassembled bytes; and in every case the stream that \<open>processMessage\<close>
  gives has no \<open>x-ee-account\<close> header, its other headers are those of the message, in
  order, its body is the body of the message, and the reassembled bytes are the
  serialisation of these parts.
\<close>

theorem directive_resolves_account:
  assumes "\<not> eeAuthEnabled sess"
    and "getFirst (rs_headers rawStream) ''x-ee-account'' = Some v"
    and "v \<noteq> []"
  shows "(loadAccountData env v = LoadReturns (Some d) \<longrightarrow>
           checkAccountData env cache sess (snd (processMessage rawStream \<lparr>requestedAccount = None\<rparr>)) =
             (Inr \<lparr>account = v, secret = getSecret env\<rparr>,
              cache(sid sess \<mapsto> \<lparr>account = v, secret = getSecret env\<rparr>),
              [LogInfo ''Resolved requested account'' v]) \<and>
           QueueMessage \<lparr>account = v, secret = getSecret env\<rparr>
               \<lparr>envelope_from = mailFrom sess, envelope_to = rcptTo sess,
                raw = header_block (filter (\<lambda>h. hkey h \<noteq> ''x-ee-account'') (rs_headers rawStream)) @
                  concat (rs_body rawStream)\<rparr>
             \<in> set (effects (onData env cache rawStream sess))) \<and>
         ''x-ee-account'' \<notin> hkey ` set (os_headers (fst (processMessage rawStream \<lparr>requestedAccount = None\<rparr>))) \<and>
         os_headers (fst (processMessage rawStream \<lparr>requestedAccount = None\<rparr>)) =
           filter (\<lambda>h. hkey h \<noteq> ''x-ee-account'') (rs_headers rawStream) \<and>
         os_body (fst (processMessage rawStream \<lparr>requestedAccount = None\<rparr>)) = rs_body rawStream \<and>
         concat (stream_chunks (fst (processMessage rawStream \<lparr>requestedAccount = None\<rparr>))) =
           header_block (filter (\<lambda>h. hkey h \<noteq> ''x-ee-account'') (rs_headers rawStream)) @
             concat (rs_body rawStream)"
proof -
  let ?st = "fst (processMessage rawStream \<lparr>requestedAccount = None\<rparr>)"
  let ?m = "snd (processMessage rawStream \<lparr>requestedAccount = None\<rparr>)"
  let ?a = "\<lparr>account = v, secret = getSecret env\<rparr>"
  let ?bytes = "header_block (filter (\<lambda>h. hkey h \<noteq> ''x-ee-account'') (rs_headers rawStream)) @
      concat (rs_body rawStream)"
  have m: "?m = \<lparr>requestedAccount = Some v\<rparr>"
    using assms(2,3) by (rule directive_captured)
  have h: "os_headers ?st = filter (\<lambda>h. hkey h \<noteq> ''x-ee-account'') (rs_headers rawStream)"
    by (simp add: processMessage_headers remove_def)
  have b: "os_body ?st = rs_body rawStream"
    by (rule processMessage_body)
  have k: "''x-ee-account'' \<notin> hkey ` set (os_headers ?st)"
    by (simp add: processMessage_headers remove_keys)
  have s: "concat (stream_chunks ?st) = ?bytes"
    by (simp add: stream_chunks_def h b)
  have r: "concat (collect_chunks ?st) = ?bytes"
    by (simp add: collect_chunks_def processMessage_flag s)
  have e: "onData env cache rawStream sess = onData_end env cache ?st sess ?m"
    by (simp add: onData_def split: prod.splits)
  have l: "checkAccountData env cache sess ?m =
        (Inr ?a, cache(sid sess \<mapsto> ?a), [LogInfo ''Resolved requested account'' v]) \<and>
      QueueMessage ?a \<lparr>envelope_from = mailFrom sess, envelope_to = rcptTo sess, raw = ?bytes\<rparr>
        \<in> set (effects (onData env cache rawStream sess))"
    if ok: "loadAccountData env v = LoadReturns (Some d)"
  proof -
    have c: "checkAccountData env cache sess ?m =
        (Inr ?a, cache(sid sess \<mapsto> ?a), [LogInfo ''Resolved requested account'' v])"
      unfolding m using assms ok
      by (simp add: checkAccountData_def directive_lookup)
    have "QueueMessage ?a
        \<lparr>envelope_from = mailFrom sess, envelope_to = rcptTo sess, raw = concat (collect_chunks ?st)\<rparr>
          \<in> set (effects (onData_end env cache ?st sess ?m))"
      by (simp add: onData_end_def processMessage_flag c Let_def split: sum.splits)
    with c show ?thesis
      unfolding e r by simp
  qed
  from l k h b s show ?thesis
    by blast
qed

theorem directive_resolves_account_witness:
  "\<not> eeAuthEnabled open_session \<and>
   getFirst (rs_headers acct1_stream) ''x-ee-account'' = Some ''acct1'' \<and>
   ''acct1'' \<noteq> [] \<and>
   loadAccountData acct1_env ''acct1'' = LoadReturns (Some (AccountData ''acct1'')) \<and>
   checkAccountData acct1_env Map.empty open_session
       (snd (processMessage acct1_stream \<lparr>requestedAccount = None\<rparr>)) =
     (Inr \<lparr>account = ''acct1'', secret = getSecret acct1_env\<rparr>,
      [sid open_session \<mapsto> \<lparr>account = ''acct1'', secret = getSecret acct1_env\<rparr>],
      [LogInfo ''Resolved requested account'' ''acct1'']) \<and>
   QueueMessage \<lparr>account = ''acct1'', secret = getSecret acct1_env\<rparr>
       \<lparr>envelope_from = mailFrom open_session, envelope_to = rcptTo open_session,
        raw = header_block (filter (\<lambda>h. hkey h \<noteq> ''x-ee-account'') (rs_headers acct1_stream)) @
          concat (rs_body acct1_stream)\<rparr>
     \<in> set (effects (onData acct1_env Map.empty acct1_stream open_session)) \<and>
   ''x-ee-account'' \<notin> hkey ` set (os_headers (fst (processMessage acct1_stream \<lparr>requestedAccount = None\<rparr>))) \<and>
   os_headers (fst (processMessage acct1_stream \<lparr>requestedAccount = None\<rparr>)) =
     filter (\<lambda>h. hkey h \<noteq> ''x-ee-account'') (rs_headers acct1_stream) \<and>
   os_body (fst (processMessage acct1_stream \<lparr>requestedAccount = None\<rparr>)) = rs_body acct1_stream \<and>
   concat (stream_chunks (fst (processMessage acct1_stream \<lparr>requestedAccount = None\<rparr>))) =
     header_block (filter (\<lambda>h. hkey h \<noteq> ''x-ee-account'') (rs_headers acct1_stream)) @
       concat (rs_body acct1_stream)"
proof -
  have a: "\<not> eeAuthEnabled open_session"
    by (simp add: open_session_def)
  have g: "getFirst (rs_headers acct1_stream) ''x-ee-account'' = Some ''acct1''"
    by (simp add: acct1_stream_def getFirst_def)
  have n: "''acct1'' \<noteq> []"
    by simp
  have l: "loadAccountData acct1_env ''acct1'' = LoadReturns (Some (AccountData ''acct1''))"
    by (simp add: acct1_env_def)
  from directive_resolves_account [OF a g n, of acct1_env "AccountData ''acct1''" Map.empty] a g n l
  show ?thesis by blast
qed

text \<open>
  When the account store fails for the requested account, by throwing or by returning
  nothing, \<open>checkAccountData\<close> still returns the handle it built before the load, and
  the cache is unchanged; when the store returns nothing, nothing is logged.
\<close>

lemma load_failure_returns_handle:
  assumes "\<not> eeAuthEnabled sess" and "requestedAccount m = Some v" and "v \<noteq> []"
    and "loadAccountData env v = LoadThrows e \<or> loadAccountData env v = LoadReturns None"
  shows "fst (checkAccountData env cache sess m) = Inr \<lparr>account = v, secret = getSecret env\<rparr>"
    and "fst (snd (checkAccountData env cache sess m)) = cache"
  using assms by (auto simp add: checkAccountData_def directive_lookup)

lemma load_without_data_logs_nothing:
  assumes "\<not> eeAuthEnabled sess" and "requestedAccount m = Some v" and "v \<noteq> []"
    and "loadAccountData env v = LoadReturns None"
  shows "snd (snd (checkAccountData env cache sess m)) = []"
  using assms by (simp add: checkAccountData_def directive_lookup)

text \<open>
  Claim C5. The session does not require authentication, nothing is cached, the
  message requests the account \<open>ghost\<close>, and the account store throws. The failure is
  logged and nothing is cached, but \<open>checkAccountData\<close> does not fail: it returns the
  handle built for \<open>ghost\<close>, and the error \<open>Failed to load account\<close> is not raised.
\<close>

theorem load_failure_returns_unloaded_handle:
  "checkAccountData ghost_env Map.empty open_session \<lparr>requestedAccount = Some ''ghost''\<rparr> =
     (Inr \<lparr>account = ''ghost'', secret = ''s3cret''\<rparr>, Map.empty,
      [LogError ''Failed resolving requested account'' ''ghost''
         (new_Error ''Account record was not found'')])"
  by (simp add: checkAccountData_def lookup_account_def Let_def ghost_env_def open_session_def)

section \<open>Properties of the data submission\<close>

text \<open>
  When the flag \<open>sizeExceeded\<close> of the stream that the \<open>end\<close> handler inspects is set,
  the handler rejects with response code 552 and invokes nothing else.
\<close>

lemma oversize_flag_rejects:
  "sizeExceeded st \<Longrightarrow>
     onData_end env cache st sess messageMeta =
       \<lparr>reply = Inl err_size_exceeded, effects = [], cache_after = cache\<rparr>"
  by (simp add: onData_end_def)

lemma err_size_exceeded_code: "err_responseCode err_size_exceeded = Some 552"
  by (simp add: err_size_exceeded_def new_Error_def)

text \<open>
  The stream that \<open>onData\<close> inspects is the one that \<open>processMessage\<close> returns, and its
  flag is never set: \<open>onData\<close> goes on to \<open>checkAccountData\<close> for every message, with
  all the chunks collected.
\<close>

lemma onData_never_checks_size:
  "onData env cache rawStream sess =
     (case checkAccountData env cache sess (snd (processMessage rawStream \<lparr>requestedAccount = None\<rparr>)) of
        (Inl err, cache1, logs) \<Rightarrow>
          \<lparr>reply = Inl err,
           effects = [CheckAccountData (sid sess) (snd (processMessage rawStream \<lparr>requestedAccount = None\<rparr>))],
           cache_after = cache1\<rparr>
      | (Inr a, cache1, logs) \<Rightarrow>
          onData_end env cache (fst (processMessage rawStream \<lparr>requestedAccount = None\<rparr>)) sess
            (snd (processMessage rawStream \<lparr>requestedAccount = None\<rparr>)))"
proof -
  have "onData env cache rawStream sess =
      onData_end env cache (fst (processMessage rawStream \<lparr>requestedAccount = None\<rparr>)) sess
        (snd (processMessage rawStream \<lparr>requestedAccount = None\<rparr>))"
    by (simp add: onData_def split: prod.splits)
  then show ?thesis
    by (simp add: onData_end_def processMessage_flag split: prod.splits sum.splits)
qed

text \<open>
  Claim C3. A message of 25 MiB, for which the protocol engine has set \<open>sizeExceeded\<close>
  on the raw stream, is submitted on a session without authentication and names the
  account \<open>acct1\<close>. \<open>onData\<close> does not reject it: \<open>checkAccountData\<close> and
  \<open>queueMessage\<close> are both invoked, the latter with all the bytes of the message, and
  the callback gets the confirmation.
\<close>

theorem oversize_message_is_queued:
  "rs_sizeExceeded big_stream \<and>
   MAX_SIZE < length (concat (rs_body big_stream)) \<and>
   reply (onData acct1_env Map.empty big_stream open_session) =
     Inr (Queued ''17a2b3c4d5'' ''2021-05-01T10:00:00.000Z'') \<and>
   effects (onData acct1_env Map.empty big_stream open_session) =
     [CheckAccountData 7 \<lparr>requestedAccount = Some ''acct1''\<rparr>,
      QueueMessage \<lparr>account = ''acct1'', secret = ''s3cret''\<rparr>
        \<lparr>envelope_from = ''a@example.com'', envelope_to = [''b@example.com''],
         raw = CRLF @ replicate (25 * 1024 * 1024) (CHR ''a'')\<rparr>,
      Metrics ''smtpSubmitQueued'']"
  by (simp add: onData_def onData_end_def pipeline_defs getFirst_def
      remove_def checkAccountData_def lookup_account_def Let_def acct1_env_def open_session_def
      big_stream_def MAX_SIZE_def collect_chunks_def stream_chunks_def header_block_def)


end
